theory Spec2Isabelle
  imports Main "HOL-Library.Sublist" "HOL-Library.AList"
begin

section \<open>Strings\<close>

text \<open>
  A Python \<^verbatim>\<open>str\<close> is modelled as a \<^typ>\<open>string\<close>, one \<^typ>\<open>char\<close> per code point:
  the model covers the code points below 256 (Latin-1), and the character classes below
  are Python's classes restricted to that range.
\<close>

definition endswith :: "string \<Rightarrow> string \<Rightarrow> bool" where
  "endswith s suf = suffix suf s"

definition startswith :: "string \<Rightarrow> string \<Rightarrow> bool" where
  "startswith s pre = prefix pre s"

text \<open>\<^verbatim>\<open>item.endswith(('.zip', '.rar', '.7z'))\<close>: a tuple argument asks for any of them.\<close>

definition endswith_any :: "string \<Rightarrow> string list \<Rightarrow> bool" where
  "endswith_any s sufs = list_ex (endswith s) sufs"

text \<open>\<^verbatim>\<open>sub in s\<close> on strings: \<open>sub\<close> occurs in \<open>s\<close> as a contiguous run.\<close>

definition contains :: "string \<Rightarrow> string \<Rightarrow> bool" where
  "contains s sub = sublist sub s"

text \<open>\<^verbatim>\<open>c.isspace()\<close> for a code point below 256.\<close>

definition isspace :: "char \<Rightarrow> bool" where
  "isspace c = ((of_char c :: nat) \<in> {9, 10, 11, 12, 13, 28, 29, 30, 31, 32, 133, 160})"

text \<open>\<^verbatim>\<open>s.strip()\<close>: whitespace is removed at both ends.\<close>

definition strip :: "string \<Rightarrow> string" where
  "strip s = rev (dropWhile isspace (rev (dropWhile isspace s)))"

text \<open>The decimal digits \<^verbatim>\<open>0\<close> to \<^verbatim>\<open>9\<close>, which are what \<^verbatim>\<open>\d\<close> matches below 256.\<close>

definition is_decimal :: "char \<Rightarrow> bool" where
  "is_decimal c = (48 \<le> (of_char c :: nat) \<and> (of_char c :: nat) \<le> 57)"

section \<open>The file system\<close>

text \<open>
  A directory is the list of its entries in the order \<^verbatim>\<open>os.listdir\<close> returns them. A
  file holds text that decodes as UTF-8, or bytes that do not (the program never looks
  at those).
\<close>

datatype content = Text string | Binary

datatype node = File content | Dir "(string \<times> node) list"

type_synonym directory = "(string \<times> node) list"

fun isdir :: "node \<Rightarrow> bool" where
  "isdir (Dir _) = True"
| "isdir (File _) = False"

text \<open>\<^verbatim>\<open>os.path.join(a, b)\<close> for a relative \<open>b\<close>, with the separator \<^verbatim>\<open>/\<close>.\<close>

definition path_join :: "string \<Rightarrow> string \<Rightarrow> string" where
  "path_join a b =
     (if b \<noteq> [] \<and> hd b = CHR ''/'' then b
      else if a = [] \<or> last a = CHR ''/'' then a @ b
      else a @ ''/'' @ b)"

section \<open>Submission scanner\<close>

datatype color = GREEN | YELLOW | RED | BLUE

datatype submission_type = Zipped_file | Text_file | Folder | Unknown_Other_file

text \<open>\<^verbatim>\<open>folder_name.split('_')[0]\<close>: the text before the first underscore.\<close>

definition extract_student_name :: "string \<Rightarrow> string" where
  "extract_student_name folder_name = takeWhile (\<lambda>c. c \<noteq> CHR ''_'') folder_name"

text \<open>
  \<^verbatim>\<open>re.search(r'_(\d{8})', item)\<close>: the leftmost underscore that eight digits follow;
  the result is group 1, the eight digits.
\<close>

fun search_with_underscore :: "string \<Rightarrow> string option" where
  "search_with_underscore [] = None"
| "search_with_underscore (c # cs) =
     (if c = CHR ''_'' \<and> 8 \<le> length cs \<and> list_all is_decimal (take 8 cs)
      then Some (take 8 cs)
      else search_with_underscore cs)"

text \<open>\<^verbatim>\<open>re.search(r'\d{8}', item)\<close>: the leftmost run of eight digits; the result is group 0.\<close>

fun search_without_underscore :: "string \<Rightarrow> string option" where
  "search_without_underscore [] = None"
| "search_without_underscore (c # cs) =
     (if 8 \<le> length (c # cs) \<and> list_all is_decimal (take 8 (c # cs))
      then Some (take 8 (c # cs))
      else search_without_underscore cs)"

text \<open>A \<^verbatim>\<open>for\<close> loop that returns at the first item on which a search matches.\<close>

fun first_match :: "(string \<Rightarrow> string option) \<Rightarrow> string list \<Rightarrow> string option" where
  "first_match f [] = None"
| "first_match f (item # items) =
     (case f item of Some m \<Rightarrow> Some m | None \<Rightarrow> first_match f items)"

definition find_matriculation_number :: "directory \<Rightarrow> string option" where
  "find_matriculation_number folder =
     (case first_match search_with_underscore (map fst folder) of
        Some m \<Rightarrow> Some m
      | None \<Rightarrow> first_match search_without_underscore (map fst folder))"

fun determine_submission_type :: "directory \<Rightarrow> submission_type \<times> color" where
  "determine_submission_type [] = (Unknown_Other_file, RED)"
| "determine_submission_type ((item, n) # items) =
     (if item = ''extracted'' then determine_submission_type items
      else if endswith_any item [''.zip'', ''.rar'', ''.7z''] then (Zipped_file, YELLOW)
      else if endswith item ''.txt'' then (Text_file, GREEN)
      else if isdir n then (Folder, BLUE)
      else determine_submission_type items)"

record student_info =
  name :: string
  matriculation :: string
  submission_type :: submission_type
  color :: color
  folder_path :: string

definition search_student_directory :: "directory \<Rightarrow> string \<Rightarrow> string \<Rightarrow> student_info" where
  "search_student_directory folder path folder_name =
     (let student_name = extract_student_name folder_name;
          matriculation_nr = find_matriculation_number folder;
          (stype, scolor) = determine_submission_type folder
      in \<lparr> name = student_name,
           matriculation = (case matriculation_nr of Some m \<Rightarrow> m | None \<Rightarrow> ''Not found''),
           submission_type = stype,
           color = scolor,
           folder_path = path \<rparr>)"

section \<open>Grade capture\<close>

datatype error = EOFError | ValueError | BadZipFile | OSError

text \<open>
  \<^verbatim>\<open>s.isdigit()\<close>: at least one character, and every character a digit. Below 256 the
  digit characters are \<^verbatim>\<open>0\<close> to \<^verbatim>\<open>9\<close> and the superscripts two, three and one
  (code points 178, 179 and 185).
\<close>

definition is_digit_char :: "char \<Rightarrow> bool" where
  "is_digit_char c = (is_decimal c \<or> (of_char c :: nat) \<in> {178, 179, 185})"

definition isdigit :: "string \<Rightarrow> bool" where
  "isdigit s = (s \<noteq> [] \<and> list_all is_digit_char s)"

text \<open>
  \<^verbatim>\<open>int(s)\<close> for a string on which \<^verbatim>\<open>isdigit\<close> holds: the decimal value. It raises
  \<^verbatim>\<open>ValueError\<close> when a character is a superscript digit, and when the string has more
  than 4300 characters (the bound of the interpreter on the digits of a decimal string;
  leading zeros count).
\<close>

definition digit_value :: "char \<Rightarrow> int" where
  "digit_value c = int (of_char c) - 48"

definition int_of_digits :: "string \<Rightarrow> error + int" where
  "int_of_digits s =
     (if list_all is_decimal s \<and> length s \<le> 4300
      then Inr (foldl (\<lambda>a c. 10 * a + digit_value c) 0 s)
      else Inl ValueError)"

text \<open>The test \<^verbatim>\<open>g.isdigit() and 0 <= int(g) <= 2\<close> of the three score loops.\<close>

definition grade_ok :: "string \<Rightarrow> error + bool" where
  "grade_ok g =
     (if isdigit g
      then (case int_of_digits g of Inl e \<Rightarrow> Inl e | Inr v \<Rightarrow> Inr (0 \<le> v \<and> v \<le> 2))
      else Inr False)"

text \<open>
  The console is the list of the lines still to be typed; \<^verbatim>\<open>input()\<close> takes the first
  one and raises \<^verbatim>\<open>EOFError\<close> when none is left.

  \<^verbatim>\<open>while not (g.isdigit() and 0 <= int(g) <= 2): g = input(...).strip()\<close>
\<close>

fun read_grade :: "string \<Rightarrow> string list \<Rightarrow> error + (string \<times> string list)" where
  "read_grade g [] =
     (case grade_ok g of
        Inl e \<Rightarrow> Inl e
      | Inr ok \<Rightarrow> if ok then Inr (g, []) else Inl EOFError)"
| "read_grade g (x # ins) =
     (case grade_ok g of
        Inl e \<Rightarrow> Inl e
      | Inr ok \<Rightarrow> if ok then Inr (g, x # ins) else read_grade (strip x) ins)"

text \<open>One pass through the body of the outer loop, up to the comment that was read.\<close>

definition read_round ::
  "string \<Rightarrow> string \<Rightarrow> string \<Rightarrow> string list \<Rightarrow>
   error + (string \<times> string \<times> string \<times> string \<times> string list)" where
  "read_round task1_grade task2_grade task3_grade ins =
     (case read_grade task1_grade ins of
        Inl e \<Rightarrow> Inl e
      | Inr (t1, ins1) \<Rightarrow>
     (case read_grade task2_grade ins1 of
        Inl e \<Rightarrow> Inl e
      | Inr (t2, ins2) \<Rightarrow>
     (case read_grade task3_grade ins2 of
        Inl e \<Rightarrow> Inl e
      | Inr (t3, ins3) \<Rightarrow>
     (case ins3 of
        [] \<Rightarrow> Inl EOFError
      | c # ins4 \<Rightarrow> Inr (t1, t2, t3, strip c, ins4)))))"

definition is_sentinel :: "string \<Rightarrow> bool" where
  "is_sentinel comment = (comment = ''b'' \<or> comment = ''0'')"

lemma read_grade_length:
  "read_grade g ins = Inr (g', ins') \<Longrightarrow> length ins' \<le> length ins"
proof (induction ins arbitrary: g)
  case Nil
  then show ?case by (auto split: sum.splits if_splits)
next
  case (Cons x ins)
  show ?case
  proof (cases "grade_ok g = Inr False")
    case True
    with Cons.prems have "read_grade (strip x) ins = Inr (g', ins')" by simp
    from Cons.IH [OF this] show ?thesis by simp
  next
    case False
    with Cons.prems show ?thesis by (auto split: sum.splits if_splits)
  qed
qed

lemma read_round_length:
  "read_round t1 t2 t3 ins = Inr (t1', t2', t3', c, ins') \<Longrightarrow> length ins' < length ins"
  unfolding read_round_def
  by (auto split: sum.splits prod.splits list.splits dest!: read_grade_length)

text \<open>
  \<^verbatim>\<open>while comment == "b" or comment == "0": ...\<close>, with the three scores and the comment
  as the loop's state. Every pass takes at least the comment from the console.
\<close>

function collect_loop ::
  "string \<Rightarrow> string \<Rightarrow> string \<Rightarrow> string \<Rightarrow> string list \<Rightarrow>
   error + ((string \<times> string \<times> string \<times> string) \<times> string list)" where
  "collect_loop task1_grade task2_grade task3_grade comment ins =
     (if is_sentinel comment
      then (case read_round task1_grade task2_grade task3_grade ins of
              Inl e \<Rightarrow> Inl e
            | Inr (t1, t2, t3, c, ins') \<Rightarrow>
                if is_sentinel c then collect_loop [] [] [] c ins'
                else collect_loop t1 t2 t3 c ins')
      else Inr ((task1_grade, task2_grade, task3_grade, comment), ins))"
  by pat_completeness auto
termination
  by (relation "measure (\<lambda>(t1, t2, t3, c, ins). length ins)")
     (auto dest: read_round_length)

declare collect_loop.simps [simp del]

definition collect_grades ::
  "string list \<Rightarrow> error + ((string \<times> string \<times> string \<times> string) \<times> string list)" where
  "collect_grades ins = collect_loop [] [] [] ''0'' ins"

section \<open>Report writer\<close>

definition CR :: char where
  "CR = CHR 0x0D"

definition LF :: char where
  "LF = CHR 0x0A"

definition DQUOTE :: char where
  "DQUOTE = CHR 0x22"

text \<open>
  \<^verbatim>\<open>csv.writer(f, delimiter=';')\<close>: minimal quoting. A field is quoted when it holds the
  delimiter, the quote character or a character of the line terminator, and a quote
  character inside it is doubled. A row ends with \<^verbatim>\<open>\r\n\<close>, which the file (opened with
  \<^verbatim>\<open>newline=''\<close>) does not translate.
\<close>

definition needs_quotes :: "string \<Rightarrow> bool" where
  "needs_quotes field = list_ex (\<lambda>c. c = CHR '';'' \<or> c = DQUOTE \<or> c = CR \<or> c = LF) field"

definition quote_field :: "string \<Rightarrow> string" where
  "quote_field field =
     (if needs_quotes field
      then DQUOTE # concat (map (\<lambda>c. if c = DQUOTE then [c, c] else [c]) field) @ [DQUOTE]
      else field)"

fun join :: "string \<Rightarrow> string list \<Rightarrow> string" where
  "join sep [] = []"
| "join sep [x] = x"
| "join sep (x # y # zs) = x @ sep @ join sep (y # zs)"

definition writerow :: "string list \<Rightarrow> string" where
  "writerow row = join '';'' (map quote_field row) @ [CR, LF]"

definition CSV_HEADERS :: "string list" where
  "CSV_HEADERS =
     [''Student Name'', ''Matriculation Nr'', ''Task 1'', ''Task 2'', ''Task 3'', ''Comment'']"

text \<open>
  The report file is its text, or \<open>None\<close> while it does not exist. The mark that the
  \<^verbatim>\<open>utf-8-sig\<close> codec puts before the first character of a new file is not part of the
  text, and the output directory is taken to exist.
\<close>

definition save_grades_to_csv ::
  "student_info \<Rightarrow> string \<times> string \<times> string \<times> string \<Rightarrow> string option \<Rightarrow> string option" where
  "save_grades_to_csv info grades csv_file =
     (let file_exists = (csv_file \<noteq> None);
          old = (case csv_file of None \<Rightarrow> [] | Some t \<Rightarrow> t);
          header = (if \<not> file_exists then writerow CSV_HEADERS else []);
          (task1, task2, task3, comment) = grades
      in Some (old @ header
               @ writerow [name info, matriculation info, task1, task2, task3, comment]))"

section \<open>Package and import stripper\<close>

text \<open>
  A file opened in text mode without a \<^verbatim>\<open>newline\<close> argument is read with universal
  newlines: \<^verbatim>\<open>\r\n\<close> and a lone \<^verbatim>\<open>\r\<close> both arrive as \<^verbatim>\<open>\n\<close>. On writing, each
  \<^verbatim>\<open>\n\<close> becomes the line separator of the platform.
\<close>

datatype platform = Posix | Windows

fun linesep :: "platform \<Rightarrow> string" where
  "linesep Posix = [LF]"
| "linesep Windows = [CR, LF]"

fun universal_newlines :: "string \<Rightarrow> string" where
  "universal_newlines [] = []"
| "universal_newlines [c] = [if c = CR then LF else c]"
| "universal_newlines (c # d # s) =
     (if c = CR \<and> d = LF then LF # universal_newlines s
      else if c = CR then LF # universal_newlines (d # s)
      else c # universal_newlines (d # s))"

definition write_newlines :: "platform \<Rightarrow> string \<Rightarrow> string" where
  "write_newlines p s = concat (map (\<lambda>c. if c = LF then linesep p else [c]) s)"

text \<open>The text cut after every \<^verbatim>\<open>\n\<close>; each line keeps its \<^verbatim>\<open>\n\<close>.\<close>

fun split_lines :: "string \<Rightarrow> string list" where
  "split_lines [] = []"
| "split_lines (c # s) =
     (if c = LF then [c] # split_lines s
      else (case split_lines s of [] \<Rightarrow> [[c]] | l # ls \<Rightarrow> (c # l) # ls))"

text \<open>\<^verbatim>\<open>f.readlines()\<close> on a file that holds the text \<open>t\<close>.\<close>

definition readlines :: "string \<Rightarrow> string list" where
  "readlines t = split_lines (universal_newlines t)"

text \<open>\<^verbatim>\<open>f.writelines(new_lines)\<close> into a file opened for writing: the text the file holds after.\<close>

definition writelines :: "platform \<Rightarrow> string list \<Rightarrow> string" where
  "writelines p new_lines = write_newlines p (concat new_lines)"

text \<open>The test of the loop over the lines: a package or an import declaration.\<close>

definition is_declaration :: "string \<Rightarrow> bool" where
  "is_declaration line =
     (let stripped = strip line
      in (startswith stripped ''package '' \<and> endswith stripped '';'')
       \<or> (startswith stripped ''import '' \<and> endswith stripped '';''))"

text \<open>
  The body of the loop over the Java files, for one directory entry. Whatever fails
  inside the \<^verbatim>\<open>try\<close> (the entry is a directory, the bytes do not decode) is caught and
  the file is left as it is. The result is the entry after the pass and whether the
  file was counted as modified.
\<close>

fun process_java_file :: "platform \<Rightarrow> node \<Rightarrow> node \<times> bool" where
  "process_java_file p (File (Text t)) =
     (let lines = readlines t;
          new_lines = filter (\<lambda>line. \<not> is_declaration line) lines;
          modified = list_ex is_declaration lines
      in if modified then (File (Text (writelines p new_lines)), True)
         else (File (Text t), False))"
| "process_java_file p (File Binary) = (File Binary, False)"
| "process_java_file p (Dir entries) = (Dir entries, False)"

fun strip_java_files :: "platform \<Rightarrow> directory \<Rightarrow> directory \<times> nat" where
  "strip_java_files p [] = ([], 0)"
| "strip_java_files p ((f, n) # entries) =
     (let (entries', files_modified) = strip_java_files p entries
      in if endswith f ''.java''
         then (let (n', modified) = process_java_file p n
               in ((f, n') # entries', if modified then files_modified + 1 else files_modified))
         else ((f, n) # entries', files_modified))"

definition remove_package_declarations ::
  "platform \<Rightarrow> directory option \<Rightarrow> directory option \<times> nat" where
  "remove_package_declarations p directory =
     (case directory of
        None \<Rightarrow> (None, 0)
      | Some entries \<Rightarrow> (let (entries', files_modified) = strip_java_files p entries
                        in (Some entries', files_modified)))"

text \<open>
  The shape of what \<^verbatim>\<open>readlines\<close> returns: no line is empty, a \<^verbatim>\<open>\n\<close> stands only at
  the end of a line, and every line but the last ends with one.
\<close>

fun lines_ok :: "string list \<Rightarrow> bool" where
  "lines_ok [] = True"
| "lines_ok [l] = (l \<noteq> [] \<and> LF \<notin> set (butlast l))"
| "lines_ok (l # m # ls) = (l \<noteq> [] \<and> LF \<notin> set (butlast l) \<and> last l = LF \<and> lines_ok (m # ls))"

section \<open>Scanning the homework root\<close>

text \<open>\<^verbatim>\<open>s.lower()\<close> below 256: the capital letters of ASCII and of Latin-1.\<close>

definition lower_char :: "char \<Rightarrow> char" where
  "lower_char c =
     (let n = (of_char c :: nat)
      in if (65 \<le> n \<and> n \<le> 90) \<or> (192 \<le> n \<and> n \<le> 222 \<and> n \<noteq> 215)
         then char_of (n + 32) else c)"

definition lower :: "string \<Rightarrow> string" where
  "lower s = map lower_char s"

record config =
  HOMEWORKS_DIR :: string
  DONE_DIR :: string
  IGNORE_DIRS :: "string list"

text \<open>The loop over the listing of the homework root, given as its entries.\<close>

fun scan_submissions :: "config \<Rightarrow> directory \<Rightarrow> student_info list" where
  "scan_submissions cfg [] = []"
| "scan_submissions cfg ((folder_name, n) # entries) =
     (if lower folder_name = DONE_DIR cfg then scan_submissions cfg entries
      else (case n of
              Dir folder \<Rightarrow>
                search_student_directory folder
                  (path_join (HOMEWORKS_DIR cfg) folder_name) folder_name
                # scan_submissions cfg entries
            | File _ \<Rightarrow> scan_submissions cfg entries))"

section \<open>Normalizer\<close>

text \<open>
  The part of the file system the pipeline works on: the listing of the homework root,
  the two staging directories (\<open>None\<close> while a directory does not exist) and the text of
  the report file.
\<close>

record world =
  homeworks :: directory
  temp_dir :: "directory option"
  current_submission_dir :: "directory option"
  grades_csv :: "string option"

text \<open>
  What the program calls and does not contain: the platform, \<^verbatim>\<open>ZipFile.extractall\<close>
  (from the archive and the node already at the target, to the listing of the target
  afterwards, or \<open>None\<close> when the archive cannot be read) and \<^verbatim>\<open>run_junit_tests\<close>, which
  drives the external compiler and test runner over the two staging directories and
  asks the operator on the console. It catches every exception, and the external
  processes are taken to finish, so it returns.
\<close>

record host =
  os_platform :: platform
  extractall :: "node \<Rightarrow> node option \<Rightarrow> directory option"
  run_junit_tests ::
    "directory option \<Rightarrow> directory option \<Rightarrow> string list
     \<Rightarrow> directory option \<times> directory option \<times> string list"

text \<open>\<^verbatim>\<open>os.path.basename\<close>: the text after the last separator.\<close>

definition basename :: "string \<Rightarrow> string" where
  "basename p = rev (takeWhile (\<lambda>c. c \<noteq> CHR ''/'') (rev p))"

text \<open>
  Every folder path of a descriptor is the homework root joined with a folder name, so
  a folder path is resolved by its last component in the listing of the homework root.
\<close>

definition lookup_folder :: "world \<Rightarrow> string \<Rightarrow> node option" where
  "lookup_folder w path = map_of (homeworks w) (basename path)"

text \<open>
  \<^verbatim>\<open>os.walk(path)\<close>, top down: for each directory its path, the names of its
  subdirectories and its files (each name with what the file holds, which the copy
  reads). Walking something that is not a directory yields nothing.
\<close>

fun subdirs :: "directory \<Rightarrow> string list" where
  "subdirs [] = []"
| "subdirs ((d, Dir _) # entries) = d # subdirs entries"
| "subdirs ((f, File _) # entries) = subdirs entries"

fun files_in :: "directory \<Rightarrow> (string \<times> content) list" where
  "files_in [] = []"
| "files_in ((d, Dir _) # entries) = files_in entries"
| "files_in ((f, File c) # entries) = (f, c) # files_in entries"

fun walk :: "string \<Rightarrow> node \<Rightarrow> (string \<times> string list \<times> (string \<times> content) list) list"
  and walk_subdirs ::
    "string \<Rightarrow> directory \<Rightarrow> (string \<times> string list \<times> (string \<times> content) list) list" where
  "walk path (File c) = []"
| "walk path (Dir entries) =
     (path, subdirs entries, files_in entries) # walk_subdirs path entries"
| "walk_subdirs path [] = []"
| "walk_subdirs path ((d, n) # entries) =
     walk (path_join path d) n @ walk_subdirs path entries"

text \<open>
  The inner loop over the files of one directory: every file whose name ends with
  \<^verbatim>\<open>.java\<close> is copied into the staging directory under its own name (a later copy
  replaces an earlier one) and counted. Copying into a directory that does not exist
  raises.
\<close>

fun copy_files ::
  "(string \<times> content) list \<Rightarrow> directory option \<Rightarrow> nat \<Rightarrow> error + (directory option \<times> nat)" where
  "copy_files [] dst java_files_found = Inr (dst, java_files_found)"
| "copy_files ((file, c) # files) dst java_files_found =
     (if endswith file ''.java''
      then (case dst of
              None \<Rightarrow> Inl OSError
            | Some d \<Rightarrow>
                copy_files files (Some (AList.update file (File c) d)) (java_files_found + 1))
      else copy_files files dst java_files_found)"

text \<open>The outer loop over the walk; \<open>skip\<close> is the test on the directory path.\<close>

fun copy_walk ::
  "(string \<Rightarrow> bool) \<Rightarrow> (string \<times> string list \<times> (string \<times> content) list) list
   \<Rightarrow> directory option \<Rightarrow> nat \<Rightarrow> error + (directory option \<times> nat)" where
  "copy_walk skip [] dst java_files_found = Inr (dst, java_files_found)"
| "copy_walk skip ((root, dirs, files) # rest) dst java_files_found =
     (if skip root then copy_walk skip rest dst java_files_found
      else (case copy_files files dst java_files_found of
              Inl e \<Rightarrow> Inl e
            | Inr (dst', found) \<Rightarrow> copy_walk skip rest dst' found))"

definition is_archive :: "string \<times> node \<Rightarrow> bool" where
  "is_archive entry = endswith_any (fst entry) [''.zip'', ''.rar'', ''.7z'']"

text \<open>
  The function returns at the first entry with an archive extension. Only a name that
  ends with \<^verbatim>\<open>.zip\<close> is extracted; the walk over \<^verbatim>\<open>extracted\<close> follows in every case.
\<close>

definition extract_and_copy_java_files ::
  "host \<Rightarrow> string \<Rightarrow> world \<Rightarrow> error + (world \<times> string option)" where
  "extract_and_copy_java_files h path w =
     (case lookup_folder w path of
        Some (Dir folder) \<Rightarrow>
          (case find is_archive folder of
             None \<Rightarrow> Inr (w, None)
           | Some (item, archive) \<Rightarrow>
               (let extract_path = path_join path ''extracted'' in
                case (if endswith item ''.zip''
                      then (case extractall h archive (map_of folder ''extracted'') of
                              None \<Rightarrow> Inl BadZipFile
                            | Some tree \<Rightarrow>
                                Inr (AList.update ''extracted'' (Dir tree) folder))
                      else Inr folder) of
                  Inl e \<Rightarrow> Inl e
                | Inr folder' \<Rightarrow>
                    (case copy_walk (\<lambda>root. contains root ''_MACOSX'')
                            (case map_of folder' ''extracted'' of
                               Some n \<Rightarrow> walk extract_path n
                             | None \<Rightarrow> [])
                            (current_submission_dir w) 0 of
                       Inl e \<Rightarrow> Inl e
                     | Inr (staging, java_files_found) \<Rightarrow>
                         Inr (w\<lparr> homeworks :=
                                   AList.update (basename path) (Dir folder') (homeworks w),
                                 current_submission_dir :=
                                   (if java_files_found > 0
                                    then fst (remove_package_declarations (os_platform h) staging)
                                    else staging) \<rparr>,
                              Some extract_path))))
      | _ \<Rightarrow> Inl OSError)"

section \<open>Processing one submission\<close>

text \<open>Step 1: both staging directories are removed when they exist and created empty.\<close>

definition setup_directories :: "world \<Rightarrow> world" where
  "setup_directories w = w\<lparr> temp_dir := Some [], current_submission_dir := Some [] \<rparr>"

text \<open>
  Step 2: the Java files are copied into the current-submission directory, by shape.
  The result also holds the path of the extraction folder to clean up.
\<close>

definition copy_submission ::
  "host \<Rightarrow> config \<Rightarrow> student_info \<Rightarrow> world \<Rightarrow> error + (world \<times> string option)" where
  "copy_submission h cfg info w =
     (if submission_type info = Zipped_file
      then extract_and_copy_java_files h (folder_path info) w
      else if submission_type info = Folder
      then (case copy_walk
                   (\<lambda>root. contains root ''_MACOSX''
                          \<or> list_ex (\<lambda>ignored. contains root ignored) (IGNORE_DIRS cfg))
                   (case lookup_folder w (folder_path info) of
                      Some n \<Rightarrow> walk (folder_path info) n
                    | None \<Rightarrow> [])
                   (current_submission_dir w) 0 of
              Inl e \<Rightarrow> Inl e
            | Inr (staging, java_files_found) \<Rightarrow>
                Inr (w\<lparr> current_submission_dir :=
                         (if java_files_found > 0
                          then fst (remove_package_declarations (os_platform h) staging)
                          else staging) \<rparr>,
                     None))
      else Inr (w, None))"

text \<open>Step 3: the tests run only when the current-submission directory has an entry.\<close>

definition run_tests_step :: "host \<Rightarrow> world \<Rightarrow> string list \<Rightarrow> world \<times> string list" where
  "run_tests_step h w ins =
     (if current_submission_dir w \<noteq> None \<and> current_submission_dir w \<noteq> Some []
      then (let (t, s, ins') = run_junit_tests h (temp_dir w) (current_submission_dir w) ins
            in (w\<lparr> temp_dir := t, current_submission_dir := s \<rparr>, ins'))
      else (w, ins))"

text \<open>Steps 1 to 5: up to the row appended to the report.\<close>

definition grade_student_submission ::
  "host \<Rightarrow> config \<Rightarrow> student_info \<Rightarrow> world \<Rightarrow> string list
   \<Rightarrow> error + (world \<times> string option \<times> string list)" where
  "grade_student_submission h cfg info w ins =
     (case copy_submission h cfg info (setup_directories w) of
        Inl e \<Rightarrow> Inl e
      | Inr (w2, extract_path_to_clean) \<Rightarrow>
          (let (w3, ins3) = run_tests_step h w2 ins
           in case collect_grades ins3 of
                Inl e \<Rightarrow> Inl e
              | Inr (grades, ins4) \<Rightarrow>
                  Inr (w3\<lparr> grades_csv := save_grades_to_csv info grades (grades_csv w3) \<rparr>,
                       extract_path_to_clean, ins4)))"

text \<open>
  Step 6: the folder moves under the archive directory of the homework root, which is
  created when missing; an entry of the same name there is removed first.
\<close>

definition move_to_done_folder :: "config \<Rightarrow> string \<Rightarrow> world \<Rightarrow> error + world" where
  "move_to_done_folder cfg path w =
     (let hw = (if map_of (homeworks w) (DONE_DIR cfg) = None
                then homeworks w @ [(DONE_DIR cfg, Dir [])]
                else homeworks w);
          folder_name = basename path
      in case map_of hw (DONE_DIR cfg) of
           Some (Dir done) \<Rightarrow>
             (case map_of done folder_name of
                Some (File _) \<Rightarrow> Inl OSError
              | _ \<Rightarrow>
                  (case map_of hw folder_name of
                     None \<Rightarrow> Inl OSError
                   | Some n \<Rightarrow>
                       if folder_name = DONE_DIR cfg then Inl OSError
                       else Inr (w\<lparr> homeworks :=
                                   AList.update (DONE_DIR cfg)
                                     (Dir (AList.delete folder_name done @ [(folder_name, n)]))
                                     (AList.delete folder_name hw) \<rparr>)))
         | _ \<Rightarrow> Inl OSError)"

text \<open>
  Step 7: both staging directories are removed, and the extraction folder when its path
  still exists.
\<close>

definition cleanup :: "string \<Rightarrow> string option \<Rightarrow> world \<Rightarrow> world" where
  "cleanup path extract_path_to_clean w =
     (let w' = w\<lparr> temp_dir := None, current_submission_dir := None \<rparr>
      in case extract_path_to_clean of
           None \<Rightarrow> w'
         | Some extract_path \<Rightarrow>
             (case lookup_folder w' path of
                Some (Dir folder) \<Rightarrow>
                  w'\<lparr> homeworks :=
                        AList.update (basename path) (Dir (AList.delete ''extracted'' folder))
                          (homeworks w') \<rparr>
              | _ \<Rightarrow> w'))"


section \<open>Properties named in the specification\<close>

text \<open>
  A field that the report writer leaves as it is: it holds no delimiter, no quote
  character and no character of the line terminator.
\<close>

definition plain_field :: "string \<Rightarrow> bool" where
  "plain_field f =
     (CHR '';'' \<notin> set f \<and> DQUOTE \<notin> set f \<and> CR \<notin> set f \<and> LF \<notin> set f)"

text \<open>
  A line as \<^verbatim>\<open>readlines\<close> returns it, written back on the platform: the \<^verbatim>\<open>\n\<close> at its
  end becomes the line separator of the platform.
\<close>

definition with_linesep :: "platform \<Rightarrow> string \<Rightarrow> string" where
  "with_linesep p line =
     (if line \<noteq> [] \<and> last line = LF then butlast line @ linesep p else line)"




section \<open>A concrete installation\<close>

text \<open>The configuration the setup wizard writes.\<close>

definition default_config :: config where
  "default_config =
     \<lparr> HOMEWORKS_DIR = ''Homeworks'', DONE_DIR = ''done'',
       IGNORE_DIRS = [''_MACOSX'', ''extracted'', ''done''] \<rparr>"

text \<open>
  A host on which no archive can be read and the test run leaves the staging
  directories and the console as they are.
\<close>

definition example_host :: host where
  "example_host =
     \<lparr> os_platform = Windows,
       extractall = (\<lambda>archive existing. None),
       run_junit_tests = (\<lambda>t s ins. (t, s, ins)) \<rparr>"

definition example_homeworks :: directory where
  "example_homeworks =
     [(''done'', Dir []),
      (''Jane Doe_77_assignsubmission_file'', Dir [(''notes.txt'', File (Text ''see mail''))]),
      (''Ravi Rao_78_assignsubmission_file'', Dir [(''solution.rar'', File Binary)]),
      (''Zoe Zhu_79_assignsubmission_file'', Dir [(''hw.zip'', File Binary)])]"

definition example_world :: world where
  "example_world =
     \<lparr> homeworks = example_homeworks, temp_dir = None, current_submission_dir = None,
       grades_csv = None \<rparr>"

text \<open>The descriptors the scanner gives for the three submissions.\<close>

definition example_text_info :: student_info where
  "example_text_info =
     search_student_directory [(''notes.txt'', File (Text ''see mail''))]
       ''Homeworks/Jane Doe_77_assignsubmission_file'' ''Jane Doe_77_assignsubmission_file''"

definition example_rar_info :: student_info where
  "example_rar_info =
     search_student_directory [(''solution.rar'', File Binary)]
       ''Homeworks/Ravi Rao_78_assignsubmission_file'' ''Ravi Rao_78_assignsubmission_file''"

definition example_zip_info :: student_info where
  "example_zip_info =
     search_student_directory [(''hw.zip'', File Binary)]
       ''Homeworks/Zoe Zhu_79_assignsubmission_file'' ''Zoe Zhu_79_assignsubmission_file''"

section \<open>Properties of the scanner\<close>

lemma first_match_append:
  "list_all (\<lambda>item. f item = None) pre \<Longrightarrow>
   first_match f (pre @ item # post) =
     (case f item of Some m \<Rightarrow> Some m | None \<Rightarrow> first_match f post)"
  by (induction pre) auto


lemma search_with_underscore_at:
  "CHR ''_'' \<notin> set p \<Longrightarrow> length d = 8 \<Longrightarrow> list_all is_decimal d \<Longrightarrow>
   search_with_underscore (p @ ''_'' @ d @ r) = Some d"
  by (induction p) auto



lemma determine_submission_type_archive_first:
  "item \<noteq> ''extracted'' \<Longrightarrow> endswith_any item [''.zip'', ''.rar'', ''.7z''] \<Longrightarrow>
   determine_submission_type ((item, n) # items) = (Zipped_file, YELLOW)"
  by simp

text \<open>
  C1 (code defect). The claim: the shape is Archive whenever any top-level entry other
  than \<^verbatim>\<open>extracted\<close> has an archive extension, wherever it stands in the listing. The
  scan returns at the first entry that matches any of the three rules, so a text file
  listed before an archive makes the shape \<^verbatim>\<open>Text file\<close>, against the priority the
  function documents (zipped files before text files before folders).
\<close>

theorem C1_text_file_listed_before_archive:
  "determine_submission_type
     [(''notes.txt'', File (Text ''see the archive'')), (''solution.zip'', File Binary)]
   = (Text_file, GREEN)"
  by code_simp

text \<open>
  C2 (counterexample). The claim: a folder named \<^verbatim>\<open>A B_12345678_rest\<close> gets the
  identifier \<^verbatim>\<open>12345678\<close>. Identifier extraction never reads the folder name: with
  no 8-digit run among the names of the entries inside the folder, the descriptor's
  identifier is \<^verbatim>\<open>Not found\<close>.
\<close>

theorem C2_identifier_not_read_from_folder_name:
  "matriculation
     (search_student_directory [(''Jane.zip'', File Binary)]
        ''Homeworks/A B_12345678_rest'' ''A B_12345678_rest'')
   \<noteq> ''12345678''"
  by code_simp

text \<open>
  C2 (amended). For a folder name \<open>a_d_rest\<close> whose display-name prefix \<open>a\<close> has no
  underscore, name extraction yields \<open>a\<close>. Identifier extraction searches the names of
  the entries inside the folder: when the first entry name that has an underscore
  followed by eight digits is \<open>p_d...\<close>, with eight digits \<open>d\<close> and no underscore in
  \<open>p\<close>, the identifier is \<open>d\<close>.
\<close>

theorem C2_name_and_identifier:
  assumes "CHR ''_'' \<notin> set a" and "CHR ''_'' \<notin> set p"
    and "length d = 8" and "list_all is_decimal d"
    and "list_all (\<lambda>e. search_with_underscore (fst e) = None) pre"
  shows "name (search_student_directory (pre @ (p @ ''_'' @ d @ r, n) # post) path
           (a @ ''_'' @ d @ ''_'' @ rest)) = a
       \<and> matriculation (search_student_directory (pre @ (p @ ''_'' @ d @ r, n) # post) path
           (a @ ''_'' @ d @ ''_'' @ rest)) = d"
proof -
  have nm: "extract_student_name (a @ ''_'' @ d @ ''_'' @ rest) = a"
    using assms(1) by (simp add: extract_student_name_def takeWhile_append)
  have "list_all (\<lambda>item. search_with_underscore item = None) (map fst pre)"
    using assms(5) by (simp add: list_all_iff)
  from first_match_append [OF this]
  have "first_match search_with_underscore
          (map fst (pre @ (p @ ''_'' @ d @ r, n) # post)) = Some d"
    using search_with_underscore_at [OF assms(2,3,4)] by simp
  then have "find_matriculation_number (pre @ (p @ ''_'' @ d @ r, n) # post) = Some d"
    by (simp add: find_matriculation_number_def)
  with nm show ?thesis
    by (simp add: search_student_directory_def split: prod.splits)
qed

theorem C2_name_and_identifier_witness:
  "name (search_student_directory
           [(''notes.txt'', File (Text '''')), (''Jane_20231234_hw1.zip'', File Binary)]
           ''Homeworks/Jane Doe_20231234_assignsubmission_file''
           ''Jane Doe_20231234_assignsubmission_file'') = ''Jane Doe''
   \<and> matriculation (search_student_directory
           [(''notes.txt'', File (Text '''')), (''Jane_20231234_hw1.zip'', File Binary)]
           ''Homeworks/Jane Doe_20231234_assignsubmission_file''
           ''Jane Doe_20231234_assignsubmission_file'') = ''20231234''"
  using C2_name_and_identifier [of "''Jane Doe''" "''Jane''" "''20231234''"
      "[(''notes.txt'', File (Text ''''))]" "''_hw1.zip''" "File Binary" "[]"
      "''Homeworks/Jane Doe_20231234_assignsubmission_file''" "''assignsubmission_file''"]
  by (simp add: is_decimal_def)

section \<open>Properties of grade capture\<close>

lemma grade_ok_empty: "grade_ok [] = Inr False"
  by (simp add: grade_ok_def isdigit_def)

lemma grade_ok_score:
  "grade_ok g = Inr True \<Longrightarrow> isdigit g \<and> int_of_digits g \<in> {Inr 0, Inr 1, Inr 2}"
proof -
  assume ok: "grade_ok g = Inr True"
  then have d: "isdigit g"
    by (auto simp: grade_ok_def split: if_splits)
  with ok obtain v where v: "int_of_digits g = Inr v" "0 \<le> v" "v \<le> 2"
    by (auto simp: grade_ok_def split: sum.splits)
  then have "v = 0 \<or> v = 1 \<or> v = 2" by arith
  with v d show ?thesis by auto
qed

lemma read_grade_ok:
  "read_grade g ins = Inr (g', ins') \<Longrightarrow> grade_ok g' = Inr True"
proof (induction ins arbitrary: g)
  case Nil
  then show ?case by (auto split: sum.splits if_splits)
next
  case (Cons x ins)
  show ?case
  proof (cases "grade_ok g = Inr False")
    case True
    with Cons.prems have "read_grade (strip x) ins = Inr (g', ins')" by simp
    from Cons.IH [OF this] show ?thesis .
  next
    case False
    with Cons.prems show ?thesis by (auto split: sum.splits if_splits)
  qed
qed

lemma read_round_ok:
  assumes "read_round a b c ins = Inr (t1, t2, t3, cm, ins')"
  shows "grade_ok t1 = Inr True \<and> grade_ok t2 = Inr True \<and> grade_ok t3 = Inr True"
  using assms unfolding read_round_def
  by (auto split: sum.splits prod.splits list.splits dest: read_grade_ok)

lemma collect_loop_result:
  "collect_loop a b c cm ins = Inr ((t1, t2, t3, cm'), rest) \<Longrightarrow>
   (is_sentinel cm \<or> (grade_ok a = Inr True \<and> grade_ok b = Inr True \<and> grade_ok c = Inr True)) \<Longrightarrow>
   grade_ok t1 = Inr True \<and> grade_ok t2 = Inr True \<and> grade_ok t3 = Inr True
   \<and> \<not> is_sentinel cm'"
proof (induction a b c cm ins rule: collect_loop.induct)
  case (1 a b c cm ins)
  show ?case
  proof (cases "is_sentinel cm")
    case False
    with "1.prems" show ?thesis by (simp add: collect_loop.simps)
  next
    case True
    with "1.prems"(1) obtain x1 x2 x3 xc ins'
      where r: "read_round a b c ins = Inr (x1, x2, x3, xc, ins')"
      by (subst (asm) collect_loop.simps) (auto split: sum.splits)
    note ok = read_round_ok [OF r]
    show ?thesis
    proof (cases "is_sentinel xc")
      case s: True
      with True r "1.prems"(1)
      have "collect_loop [] [] [] xc ins' = Inr ((t1, t2, t3, cm'), rest)"
        by (subst (asm) collect_loop.simps) simp
      from "1.IH"(1) [OF True r refl refl refl refl s this] s show ?thesis by simp
    next
      case ns: False
      with True r "1.prems"(1)
      have "collect_loop x1 x2 x3 xc ins' = Inr ((t1, t2, t3, cm'), rest)"
        by (subst (asm) collect_loop.simps) simp
      from "1.IH"(2) [OF True r refl refl refl refl ns this] ok show ?thesis by simp
    qed
  qed
qed

lemma collect_loop_sentinel:
  "is_sentinel cm \<Longrightarrow> collect_loop a b c cm ins = collect_loop a b c ''0'' ins"
  by (subst collect_loop.simps, subst (2) collect_loop.simps) (simp add: is_sentinel_def)

lemma collect_grades_scores:
  assumes "collect_grades ins = Inr ((t1, t2, t3, comment), rest)"
  shows "isdigit t1 \<and> int_of_digits t1 \<in> {Inr 0, Inr 1, Inr 2}
       \<and> isdigit t2 \<and> int_of_digits t2 \<in> {Inr 0, Inr 1, Inr 2}
       \<and> isdigit t3 \<and> int_of_digits t3 \<in> {Inr 0, Inr 1, Inr 2}"
proof -
  from assms have "collect_loop [] [] [] ''0'' ins = Inr ((t1, t2, t3, comment), rest)"
    by (simp add: collect_grades_def)
  from collect_loop_result [OF this]
  have ok: "grade_ok t1 = Inr True" "grade_ok t2 = Inr True" "grade_ok t3 = Inr True"
    by (simp_all add: is_sentinel_def)
  from grade_ok_score [OF ok(1)] grade_ok_score [OF ok(2)] grade_ok_score [OF ok(3)]
  show ?thesis by blast
qed

lemma read_grade_reprompts:
  "grade_ok (strip x) = Inr False \<Longrightarrow> read_grade [] (x # ins) = read_grade [] ins"
  by (cases ins) (simp_all add: grade_ok_empty)

lemma collect_grades_restart:
  assumes r: "read_round [] [] [] ins = Inr (a, b, c, cm, ins')" and s: "is_sentinel cm"
  shows "collect_grades ins = collect_grades ins'"
proof -
  have z: "is_sentinel ''0''"
    by (simp add: is_sentinel_def)
  have "collect_grades ins = collect_loop [] [] [] cm ins'"
    unfolding collect_grades_def
    by (subst collect_loop.simps) (simp add: r s z)
  also have "\<dots> = collect_grades ins'"
    unfolding collect_grades_def by (rule collect_loop_sentinel [OF s])
  finally show ?thesis .
qed

lemma collect_grades_example:
  "collect_grades [''5'', ''x'', '' 1 '', ''02'', ''0'', ''b'', ''2'', ''2'', ''1'', ''ok'', ''more'']
     = Inr ((''2'', ''2'', ''1'', ''ok''), [''more''])"
  by code_simp

lemma int_of_digits_too_long: "4300 < length s \<Longrightarrow> int_of_digits s = Inl ValueError"
  by (simp add: int_of_digits_def)

lemma grade_ok_too_long:
  "4300 < length s \<Longrightarrow> list_all is_decimal s \<Longrightarrow> grade_ok s = Inl ValueError"
  by (cases s) (auto simp: grade_ok_def isdigit_def is_digit_char_def int_of_digits_def
      list_all_iff)

text \<open>
  C5 (code defect). The claim: an input that is not an integer is rejected and the
  score is asked for again. The guard of the score loops calls \<^verbatim>\<open>int\<close> on every string
  that passes \<^verbatim>\<open>isdigit\<close>, and a superscript two passes \<^verbatim>\<open>isdigit\<close> although \<^verbatim>\<open>int\<close>
  does not read it: typed at a score prompt it raises \<^verbatim>\<open>ValueError\<close>, which nothing
  catches, so grade capture (and the grading stage of the pipeline with it) stops
  instead of asking again.
\<close>

theorem C5_superscript_digit_aborts:
  "isdigit [CHR 0xB2]
   \<and> grade_ok (strip [CHR 0xB2]) = Inl ValueError
   \<and> collect_grades [[CHR 0xB2], ''1'', ''1'', ''1'', ''fine''] = Inl ValueError
   \<and> grade_student_submission example_host default_config example_text_info example_world
        [''1'', ''2'', [CHR 0xB2], ''2'', ''ok''] = Inl ValueError"
  by code_simp

section \<open>Properties of the stripper\<close>

lemma concat_split_lines: "concat (split_lines s) = s"
  by (induction s) (auto split: list.splits)

lemma split_lines_Nil: "split_lines s = [] \<longleftrightarrow> s = []"
  by (cases s) (auto split: list.splits)

lemma lines_ok_split_lines: "lines_ok (split_lines s)"
proof (induction s)
  case Nil
  then show ?case by simp
next
  case (Cons c s)
  show ?case
  proof (cases "c = LF")
    case True
    with Cons show ?thesis by (cases "split_lines s") auto
  next
    case False
    show ?thesis
    proof (cases "split_lines s")
      case Nil
      with False show ?thesis by simp
    next
      case (Cons l ls)
      with Cons.IH False show ?thesis by (cases ls) auto
    qed
  qed
qed

lemma lines_ok_tl: "lines_ok (l # ls) \<Longrightarrow> lines_ok ls"
  by (cases ls) auto

lemma lines_ok_hd: "lines_ok (l # ls) \<Longrightarrow> l \<noteq> [] \<and> LF \<notin> set (butlast l)"
  by (cases ls) auto

lemma lines_ok_Cons:
  "l \<noteq> [] \<Longrightarrow> LF \<notin> set (butlast l) \<Longrightarrow> (ls \<noteq> [] \<Longrightarrow> last l = LF) \<Longrightarrow> lines_ok ls \<Longrightarrow>
   lines_ok (l # ls)"
  by (cases ls) auto

lemma lines_ok_last: "lines_ok (l # ls) \<Longrightarrow> ls \<noteq> [] \<Longrightarrow> last l = LF"
  by (cases ls) auto

lemma lines_ok_filter: "lines_ok ls \<Longrightarrow> lines_ok (filter P ls)"
proof (induction ls)
  case Nil
  then show ?case by simp
next
  case (Cons l ls)
  from Cons.prems have tl: "lines_ok ls" by (rule lines_ok_tl)
  with Cons.IH have IH: "lines_ok (filter P ls)" by simp
  show ?case
  proof (cases "P l")
    case False
    with IH show ?thesis by simp
  next
    case True
    have "filter P ls \<noteq> [] \<Longrightarrow> last l = LF"
    proof -
      assume "filter P ls \<noteq> []"
      then have "ls \<noteq> []" by auto
      with Cons.prems show "last l = LF" by (rule lines_ok_last)
    qed
    with lines_ok_hd [OF Cons.prems] IH True show ?thesis
      by (simp add: lines_ok_Cons)
  qed
qed

lemma split_lines_terminated:
  "l \<noteq> [] \<Longrightarrow> LF \<notin> set (butlast l) \<Longrightarrow> last l = LF \<Longrightarrow>
   split_lines (l @ s) = l # split_lines s"
proof (induction l)
  case Nil
  then show ?case by simp
next
  case (Cons c l)
  show ?case
  proof (cases "l = []")
    case True
    with Cons.prems show ?thesis by simp
  next
    case False
    with Cons.prems have "c \<noteq> LF" "LF \<notin> set (butlast l)" "last l = LF" by auto
    with Cons.IH False show ?thesis by simp
  qed
qed

lemma split_lines_single:
  "l \<noteq> [] \<Longrightarrow> LF \<notin> set (butlast l) \<Longrightarrow> split_lines l = [l]"
proof (induction l)
  case Nil
  then show ?case by simp
next
  case (Cons c l)
  show ?case
  proof (cases "l = []")
    case True
    then show ?thesis by simp
  next
    case False
    with Cons.prems have "c \<noteq> LF" "LF \<notin> set (butlast l)" by auto
    with Cons.IH False show ?thesis by simp
  qed
qed

lemma split_lines_concat: "lines_ok ls \<Longrightarrow> split_lines (concat ls) = ls"
proof (induction ls)
  case Nil
  then show ?case by simp
next
  case (Cons l ls)
  note hd = lines_ok_hd [OF Cons.prems]
  show ?case
  proof (cases "ls = []")
    case True
    with hd show ?thesis by (simp add: split_lines_single)
  next
    case False
    from Cons.prems False have "last l = LF" by (rule lines_ok_last)
    with hd have "split_lines (l @ concat ls) = l # split_lines (concat ls)"
      by (simp add: split_lines_terminated)
    with Cons.IH lines_ok_tl [OF Cons.prems] show ?thesis by simp
  qed
qed

lemma universal_newlines_no_CR: "CR \<notin> set (universal_newlines t)"
  by (induction t rule: universal_newlines.induct) (auto simp: CR_def LF_def)

lemma universal_newlines_Cons:
  "c \<noteq> CR \<Longrightarrow> universal_newlines (c # s) = c # universal_newlines s"
  by (cases s) auto

lemma universal_newlines_id: "CR \<notin> set s \<Longrightarrow> universal_newlines s = s"
  by (induction s) (auto simp: universal_newlines_Cons)

lemma universal_write_newlines:
  "CR \<notin> set s \<Longrightarrow> universal_newlines (write_newlines p s) = s"
proof (induction s)
  case Nil
  then show ?case by (simp add: write_newlines_def)
next
  case (Cons c s)
  then have IH: "universal_newlines (write_newlines p s) = s" and c: "c \<noteq> CR" by auto
  show ?case
  proof (cases p)
    case Posix
    with IH c show ?thesis
      by (simp add: write_newlines_def universal_newlines_Cons CR_def LF_def)
  next
    case Windows
    with IH c show ?thesis
      by (simp add: write_newlines_def universal_newlines_Cons)
  qed
qed

lemma readlines_writelines:
  "readlines (writelines p (filter Q (readlines t))) = filter Q (readlines t)"
proof -
  let ?kept = "filter Q (readlines t)"
  have "set (concat ?kept) \<subseteq> set (concat (readlines t))" by auto
  also have "\<dots> = set (universal_newlines t)"
    by (simp add: readlines_def concat_split_lines)
  finally have "CR \<notin> set (concat ?kept)"
    using universal_newlines_no_CR by blast
  then have "readlines (writelines p ?kept) = split_lines (concat ?kept)"
    by (simp add: readlines_def writelines_def universal_write_newlines)
  also have "\<dots> = ?kept"
    by (rule split_lines_concat) (simp add: readlines_def lines_ok_filter lines_ok_split_lines)
  finally show ?thesis .
qed

lemma write_newlines_append:
  "write_newlines p (a @ b) = write_newlines p a @ write_newlines p b"
  by (simp add: write_newlines_def)

lemma write_newlines_no_LF: "LF \<notin> set s \<Longrightarrow> write_newlines p s = s"
  by (induction s) (auto simp: write_newlines_def)

lemma write_newlines_line:
  assumes "l \<noteq> []" and "LF \<notin> set (butlast l)"
  shows "write_newlines p l = with_linesep p l"
proof -
  from assms(1) have l: "l = butlast l @ [last l]" by simp
  have "write_newlines p l = write_newlines p (butlast l) @ write_newlines p [last l]"
    by (subst l) (rule write_newlines_append)
  also have "\<dots> = butlast l @ (if last l = LF then linesep p else [last l])"
    using assms(2) by (simp add: write_newlines_no_LF) (simp add: write_newlines_def)
  also have "\<dots> = with_linesep p l"
    using assms(1) by (simp add: with_linesep_def)
  finally show ?thesis .
qed

lemma writelines_with_linesep:
  "lines_ok ls \<Longrightarrow> writelines p ls = concat (map (with_linesep p) ls)"
proof (induction ls)
  case Nil
  then show ?case by (simp add: writelines_def write_newlines_def)
next
  case (Cons l ls)
  from lines_ok_hd [OF Cons.prems] have "write_newlines p l = with_linesep p l"
    by (simp add: write_newlines_line)
  moreover from Cons.IH lines_ok_tl [OF Cons.prems]
  have "write_newlines p (concat ls) = concat (map (with_linesep p) ls)"
    by (simp add: writelines_def)
  ultimately show ?case
    by (simp add: writelines_def write_newlines_append)
qed

lemma lines_ok_kept: "lines_ok (filter P (readlines t))"
  by (simp add: readlines_def lines_ok_filter lines_ok_split_lines)

lemma process_java_file_text:
  "\<exists>t'. fst (process_java_file p (File (Text t))) = File (Text t')
      \<and> readlines t' = filter (\<lambda>line. \<not> is_declaration line) (readlines t)
      \<and> (if list_ex is_declaration (readlines t)
         then t' = concat (map (with_linesep p)
                     (filter (\<lambda>line. \<not> is_declaration line) (readlines t)))
         else t' = t)"
proof (cases "list_ex is_declaration (readlines t)")
  case True
  let ?kept = "filter (\<lambda>line. \<not> is_declaration line) (readlines t)"
  from True have "fst (process_java_file p (File (Text t))) = File (Text (writelines p ?kept))"
    by (simp add: Let_def)
  moreover have "readlines (writelines p ?kept) = ?kept"
    by (rule readlines_writelines)
  moreover have "writelines p ?kept = concat (map (with_linesep p) ?kept)"
    by (rule writelines_with_linesep [OF lines_ok_kept])
  ultimately show ?thesis using True by simp
next
  case False
  then have "filter (\<lambda>line. \<not> is_declaration line) (readlines t) = readlines t"
    by (simp add: list_ex_iff filter_id_conv)
  with False show ?thesis by (simp add: Let_def)
qed

lemma process_java_file_modified:
  "snd (process_java_file p n) \<longleftrightarrow> fst (process_java_file p n) \<noteq> n"
proof (cases n)
  case (Dir entries)
  then show ?thesis by simp
next
  case (File c)
  show ?thesis
  proof (cases c)
    case Binary
    with File show ?thesis by simp
  next
    case (Text t)
    show ?thesis
    proof (cases "list_ex is_declaration (readlines t)")
      case False
      with File Text show ?thesis by (simp add: Let_def)
    next
      case True
      let ?kept = "filter (\<lambda>line. \<not> is_declaration line) (readlines t)"
      from True have "?kept \<noteq> readlines t"
        by (auto simp: list_ex_iff filter_id_conv)
      then have "readlines (writelines p ?kept) \<noteq> readlines t"
        by (simp add: readlines_writelines)
      then have "writelines p ?kept \<noteq> t" by auto
      with True File Text show ?thesis by (simp add: Let_def)
    qed
  qed
qed

lemma process_java_file_idem:
  "process_java_file p (fst (process_java_file p n)) = (fst (process_java_file p n), False)"
proof (cases n)
  case (Dir entries)
  then show ?thesis by simp
next
  case (File c)
  show ?thesis
  proof (cases c)
    case Binary
    with File show ?thesis by simp
  next
    case (Text t)
    show ?thesis
    proof (cases "list_ex is_declaration (readlines t)")
      case False
      with File Text show ?thesis by (simp add: Let_def)
    next
      case True
      let ?kept = "filter (\<lambda>line. \<not> is_declaration line) (readlines t)"
      have "readlines (writelines p ?kept) = ?kept"
        by (rule readlines_writelines)
      moreover have "\<not> list_ex is_declaration ?kept"
        by (simp add: list_ex_iff)
      ultimately have "process_java_file p (File (Text (writelines p ?kept)))
          = (File (Text (writelines p ?kept)), False)"
        by (simp add: Let_def)
      with True File Text show ?thesis by (simp add: Let_def)
    qed
  qed
qed

lemma strip_java_files_map:
  "strip_java_files p entries =
     (map (\<lambda>(f, n). (f, if endswith f ''.java'' then fst (process_java_file p n) else n)) entries,
      length (filter (\<lambda>(f, n). endswith f ''.java'' \<and> snd (process_java_file p n)) entries))"
  by (induction entries) (auto simp: Let_def split: prod.splits)

lemma strip_java_files_idem:
  "strip_java_files p (fst (strip_java_files p entries)) = (fst (strip_java_files p entries), 0)"
proof (induction entries)
  case Nil
  then show ?case by simp
next
  case (Cons e entries)
  obtain f n where e: "e = (f, n)" by (cases e)
  obtain es' k where r: "strip_java_files p entries = (es', k)"
    by (cases "strip_java_files p entries")
  with Cons.IH have IH: "strip_java_files p es' = (es', 0)" by simp
  obtain n' m where pj: "process_java_file p n = (n', m)"
    by (cases "process_java_file p n")
  with process_java_file_idem [of p n] have idem: "process_java_file p n' = (n', False)"
    by simp
  show ?case
    using e r IH pj idem by (simp add: Let_def)
qed

text \<open>
  C3 (counterexample). The claim: every line that is kept is preserved verbatim, with its
  original line ending. The file is read and written in text mode, so the line endings
  of a file that is rewritten become the line separator of the platform: on Posix a kept
  line that ended with \<^verbatim>\<open>\r\n\<close> ends with \<^verbatim>\<open>\n\<close> after the pass, and on Windows a
  kept line that ended with \<^verbatim>\<open>\n\<close> ends with \<^verbatim>\<open>\r\n\<close>.
\<close>

theorem C3_line_endings_rewritten:
  "remove_package_declarations Posix
     (Some [(''A.java'', File (Text (''package a;'' @ [CR, LF] @ ''class A {}'' @ [CR, LF])))])
   = (Some [(''A.java'', File (Text (''class A {}'' @ [LF])))], 1)
   \<and> remove_package_declarations Windows
     (Some [(''A.java'', File (Text (''package a;'' @ [LF] @ ''class A {}'' @ [LF])))])
   = (Some [(''A.java'', File (Text (''class A {}'' @ [CR, LF])))], 1)"
  by code_simp

text \<open>
  C3 (amended). The pass keeps every entry of the directory under its name. A Java file
  that decodes and has a package or import declaration is rewritten: its new text is
  the lines read before the pass (in text mode, so each line ending read as \<^verbatim>\<open>\n\<close>)
  without the declarations, in the same order, each with the \<^verbatim>\<open>\n\<close> at its end
  written as the line separator of the platform; read back, the lines are the lines
  read before without the declarations. A file with no such line keeps its text.
  Every other entry is left as it is, and the number returned is the number of entries
  that changed.
\<close>

theorem C3_stripper:
  assumes "remove_package_declarations p (Some entries) = (directory', k)"
  shows "\<exists>entries'. directory' = Some entries' \<and> length entries' = length entries
     \<and> (\<forall>i<length entries.
          fst (entries' ! i) = fst (entries ! i)
        \<and> (case entries ! i of
             (f, File (Text t)) \<Rightarrow>
               if endswith f ''.java''
               then \<exists>t'. snd (entries' ! i) = File (Text t')
                      \<and> readlines t' = filter (\<lambda>line. \<not> is_declaration line) (readlines t)
                      \<and> (if list_ex is_declaration (readlines t)
                         then t' = concat (map (with_linesep p)
                                (filter (\<lambda>line. \<not> is_declaration line) (readlines t)))
                         else t' = t)
               else snd (entries' ! i) = File (Text t)
           | (f, n) \<Rightarrow> snd (entries' ! i) = n))
     \<and> k = card {i. i < length entries \<and> entries' ! i \<noteq> entries ! i}"
proof -
  let ?g = "\<lambda>(f, n). (f, if endswith f ''.java'' then fst (process_java_file p n) else n)"
  let ?es = "map ?g entries"
  from assms have d: "directory' = Some ?es"
    and k: "k = length (filter (\<lambda>(f, n). endswith f ''.java'' \<and> snd (process_java_file p n)) entries)"
    by (simp_all add: remove_package_declarations_def strip_java_files_map)
  have each: "fst (?es ! i) = fst (entries ! i)
        \<and> (case entries ! i of
             (f, File (Text t)) \<Rightarrow>
               if endswith f ''.java''
               then \<exists>t'. snd (?es ! i) = File (Text t')
                      \<and> readlines t' = filter (\<lambda>line. \<not> is_declaration line) (readlines t)
                      \<and> (if list_ex is_declaration (readlines t)
                         then t' = concat (map (with_linesep p)
                                (filter (\<lambda>line. \<not> is_declaration line) (readlines t)))
                         else t' = t)
               else snd (?es ! i) = File (Text t)
           | (f, n) \<Rightarrow> snd (?es ! i) = n)" if i: "i < length entries" for i
  proof -
    obtain f n where e: "entries ! i = (f, n)" by (cases "entries ! i")
    from i e have m: "?es ! i = (f, if endswith f ''.java'' then fst (process_java_file p n) else n)"
      by simp
    show ?thesis
    proof (cases n)
      case (Dir sub)
      with e m show ?thesis by simp
    next
      case (File c)
      show ?thesis
      proof (cases c)
        case Binary
        with File e m show ?thesis by simp
      next
        case (Text t)
        show ?thesis
        proof (cases "endswith f ''.java''")
          case False
          with Text File e m show ?thesis by simp
        next
          case True
          from process_java_file_text [of p t] obtain t'
            where "fst (process_java_file p (File (Text t))) = File (Text t')"
              and "readlines t' = filter (\<lambda>line. \<not> is_declaration line) (readlines t)"
              and "if list_ex is_declaration (readlines t)
                   then t' = concat (map (with_linesep p)
                          (filter (\<lambda>line. \<not> is_declaration line) (readlines t)))
                   else t' = t"
            by blast
          with True Text File e m show ?thesis by simp
        qed
      qed
    qed
  qed
  have "(\<lambda>(f, n). endswith f ''.java'' \<and> snd (process_java_file p n)) = (\<lambda>e. ?g e \<noteq> e)"
    by (auto simp: fun_eq_iff process_java_file_modified)
  with k have "k = card {i. i < length entries \<and> ?g (entries ! i) \<noteq> entries ! i}"
    by (simp add: length_filter_conv_card)
  also have "{i. i < length entries \<and> ?g (entries ! i) \<noteq> entries ! i}
      = {i. i < length entries \<and> ?es ! i \<noteq> entries ! i}"
    by auto
  finally have "k = card {i. i < length entries \<and> ?es ! i \<noteq> entries ! i}" .
  with d each show ?thesis by (intro exI [of _ ?es]) simp
qed

theorem C3_stripper_witness:
  "remove_package_declarations Posix
     (Some [(''A.java'', File (Text (''package a.b;'' @ [LF] @ ''class A {}'' @ [LF]))),
            (''notes.txt'', File (Text ''import x;''))])
   = (Some [(''A.java'', File (Text (''class A {}'' @ [LF]))),
            (''notes.txt'', File (Text ''import x;''))], 1)
   \<and> (\<exists>entries'.
        Some [(''A.java'', File (Text (''class A {}'' @ [LF]))),
              (''notes.txt'', File (Text ''import x;''))] = Some entries'
      \<and> length entries'
        = length [(''A.java'', File (Text (''package a.b;'' @ [LF] @ ''class A {}'' @ [LF]))),
                  (''notes.txt'', File (Text ''import x;''))]
      \<and> (\<forall>i<length [(''A.java'', File (Text (''package a.b;'' @ [LF] @ ''class A {}'' @ [LF]))),
                       (''notes.txt'', File (Text ''import x;''))].
          fst (entries' ! i)
            = fst ([(''A.java'', File (Text (''package a.b;'' @ [LF] @ ''class A {}'' @ [LF]))),
                    (''notes.txt'', File (Text ''import x;''))] ! i)
        \<and> (case [(''A.java'', File (Text (''package a.b;'' @ [LF] @ ''class A {}'' @ [LF]))),
                   (''notes.txt'', File (Text ''import x;''))] ! i of
             (f, File (Text t)) \<Rightarrow>
               if endswith f ''.java''
               then \<exists>t'. snd (entries' ! i) = File (Text t')
                      \<and> readlines t' = filter (\<lambda>line. \<not> is_declaration line) (readlines t)
                      \<and> (if list_ex is_declaration (readlines t)
                         then t' = concat (map (with_linesep Posix)
                                (filter (\<lambda>line. \<not> is_declaration line) (readlines t)))
                         else t' = t)
               else snd (entries' ! i) = File (Text t)
           | (f, n) \<Rightarrow> snd (entries' ! i) = n))
      \<and> 1 = card {i. i < length [(''A.java'', File (Text (''package a.b;'' @ [LF] @ ''class A {}'' @ [LF]))),
                                  (''notes.txt'', File (Text ''import x;''))]
                     \<and> entries' ! i
                       \<noteq> [(''A.java'', File (Text (''package a.b;'' @ [LF] @ ''class A {}'' @ [LF]))),
                          (''notes.txt'', File (Text ''import x;''))] ! i})"
proof -
  have h: "remove_package_declarations Posix
     (Some [(''A.java'', File (Text (''package a.b;'' @ [LF] @ ''class A {}'' @ [LF]))),
            (''notes.txt'', File (Text ''import x;''))])
   = (Some [(''A.java'', File (Text (''class A {}'' @ [LF]))),
            (''notes.txt'', File (Text ''import x;''))], 1)"
    by code_simp
  show ?thesis
    by (rule conjI [OF h C3_stripper [OF h]])
qed

text \<open>
  C4. The stripper is idempotent: a second pass over the directory the first pass left
  changes nothing and reports zero modified files.
\<close>

theorem C4_stripper_idempotent:
  "remove_package_declarations p (fst (remove_package_declarations p directory))
   = (fst (remove_package_declarations p directory), 0)"
proof (cases directory)
  case None
  then show ?thesis by (simp add: remove_package_declarations_def)
next
  case (Some entries)
  obtain es' k where r: "strip_java_files p entries = (es', k)"
    by (cases "strip_java_files p entries")
  with strip_java_files_idem [of p entries] have "strip_java_files p es' = (es', 0)" by simp
  with Some r show ?thesis by (simp add: remove_package_declarations_def)
qed

section \<open>Properties of the report writer\<close>

lemma needs_quotes_plain: "needs_quotes f \<longleftrightarrow> \<not> plain_field f"
  by (auto simp: needs_quotes_def plain_field_def list_ex_iff)

lemma quote_field_plain: "plain_field f \<Longrightarrow> quote_field f = f"
  by (simp add: quote_field_def needs_quotes_plain)

lemma quote_field_quoted:
  "\<not> plain_field f \<Longrightarrow>
   quote_field f = DQUOTE # concat (map (\<lambda>c. if c = DQUOTE then [c, c] else [c]) f) @ [DQUOTE]"
  by (simp add: quote_field_def needs_quotes_plain)

lemma writerow_six:
  "writerow [f1, f2, f3, f4, f5, f6]
     = quote_field f1 @ '';'' @ quote_field f2 @ '';'' @ quote_field f3 @ '';''
       @ quote_field f4 @ '';'' @ quote_field f5 @ '';'' @ quote_field f6 @ [CR, LF]"
  by (simp add: writerow_def)

lemma writerow_headers:
  "writerow CSV_HEADERS
     = ''Student Name;Matriculation Nr;Task 1;Task 2;Task 3;Comment'' @ [CR, LF]"
  by code_simp

lemma universal_newlines_CRLF:
  "CR \<notin> set s \<Longrightarrow> universal_newlines (s @ CR # LF # rest) = s @ LF # universal_newlines rest"
  by (induction s) (auto simp: universal_newlines_Cons)

lemma universal_newlines_rows:
  "list_all (\<lambda>r. CR \<notin> set r) rows \<Longrightarrow>
   universal_newlines (concat (map (\<lambda>r. r @ [CR, LF]) rows)) = concat (map (\<lambda>r. r @ [LF]) rows)"
  by (induction rows) (auto simp: universal_newlines_CRLF)

lemma lines_ok_rows:
  "list_all (\<lambda>r. LF \<notin> set r) rows \<Longrightarrow> lines_ok (map (\<lambda>r. r @ [LF]) rows)"
proof (induction rows)
  case Nil
  then show ?case by simp
next
  case (Cons r rows)
  then show ?case by (cases rows) (auto simp: butlast_append)
qed

lemma readlines_rows:
  assumes "list_all (\<lambda>r. CR \<notin> set r \<and> LF \<notin> set r) rows"
  shows "readlines (concat (map (\<lambda>r. r @ [CR, LF]) rows)) = map (\<lambda>r. r @ [LF]) rows"
proof -
  from assms have a: "list_all (\<lambda>r. CR \<notin> set r) rows" and b: "list_all (\<lambda>r. LF \<notin> set r) rows"
    by (simp_all add: list_all_iff)
  show ?thesis
    by (simp add: readlines_def universal_newlines_rows [OF a]
          split_lines_concat [OF lines_ok_rows [OF b]])
qed

lemma plain_row:
  assumes "list_all plain_field [f1, f2, f3, f4, f5, f6]"
  shows "CR \<notin> set (f1 @ '';'' @ f2 @ '';'' @ f3 @ '';'' @ f4 @ '';'' @ f5 @ '';'' @ f6)
       \<and> LF \<notin> set (f1 @ '';'' @ f2 @ '';'' @ f3 @ '';'' @ f4 @ '';'' @ f5 @ '';'' @ f6)"
  using assms by (simp add: plain_field_def CR_def LF_def)

text \<open>
  C6. The header is written exactly when the report file does not exist at the time of
  the append. Two appends that start with no report file leave the text of the header
  row, \<^verbatim>\<open>Student Name;Matriculation Nr;Task 1;Task 2;Task 3;Comment\<close>, followed by
  the two data rows: each row is its six fields joined by semicolons and ended by
  \<^verbatim>\<open>\r\n\<close>, a field written as it is unless it holds a semicolon, a quote or a line
  break (then it is put in quotes, with its quotes doubled). Read back, such a file of
  plain fields has exactly three lines: the header and the two rows. An append to a
  file that exists adds its row after the text the file already has, and no header.
\<close>

theorem C6_header_written_once:
  "save_grades_to_csv infob (ha, hb, hc, hm) (save_grades_to_csv infoa (ga, gb, gc, gm) None)
     = Some (''Student Name;Matriculation Nr;Task 1;Task 2;Task 3;Comment'' @ [CR, LF]
             @ quote_field (name infoa) @ '';'' @ quote_field (matriculation infoa) @ '';''
             @ quote_field ga @ '';'' @ quote_field gb @ '';'' @ quote_field gc @ '';''
             @ quote_field gm @ [CR, LF]
             @ quote_field (name infob) @ '';'' @ quote_field (matriculation infob) @ '';''
             @ quote_field ha @ '';'' @ quote_field hb @ '';'' @ quote_field hc @ '';''
             @ quote_field hm @ [CR, LF])
   \<and> save_grades_to_csv info (a, b, c, m) (Some t)
     = Some (t @ quote_field (name info) @ '';'' @ quote_field (matriculation info) @ '';''
             @ quote_field a @ '';'' @ quote_field b @ '';'' @ quote_field c @ '';''
             @ quote_field m @ [CR, LF])
   \<and> (plain_field f \<longrightarrow> quote_field f = f)
   \<and> (\<not> plain_field g \<longrightarrow>
        quote_field g
          = DQUOTE # concat (map (\<lambda>c. if c = DQUOTE then [c, c] else [c]) g)
            @ [DQUOTE])
   \<and> (list_all plain_field
          [name infoa, matriculation infoa, ga, gb, gc, gm,
           name infob, matriculation infob, ha, hb, hc, hm] \<longrightarrow>
        (\<exists>text.
           save_grades_to_csv infob (ha, hb, hc, hm)
             (save_grades_to_csv infoa (ga, gb, gc, gm) None) = Some text
         \<and> readlines text
           = [''Student Name;Matriculation Nr;Task 1;Task 2;Task 3;Comment'' @ [LF],
              name infoa @ '';'' @ matriculation infoa @ '';'' @ ga @ '';'' @ gb @ '';'' @ gc
                @ '';'' @ gm @ [LF],
              name infob @ '';'' @ matriculation infob @ '';'' @ ha @ '';'' @ hb @ '';'' @ hc
                @ '';'' @ hm @ [LF]]))"
proof (intro conjI impI)
  show "save_grades_to_csv infob (ha, hb, hc, hm) (save_grades_to_csv infoa (ga, gb, gc, gm) None)
     = Some (''Student Name;Matriculation Nr;Task 1;Task 2;Task 3;Comment'' @ [CR, LF]
             @ quote_field (name infoa) @ '';'' @ quote_field (matriculation infoa) @ '';''
             @ quote_field ga @ '';'' @ quote_field gb @ '';'' @ quote_field gc @ '';''
             @ quote_field gm @ [CR, LF]
             @ quote_field (name infob) @ '';'' @ quote_field (matriculation infob) @ '';''
             @ quote_field ha @ '';'' @ quote_field hb @ '';'' @ quote_field hc @ '';''
             @ quote_field hm @ [CR, LF])"
    by (simp add: save_grades_to_csv_def writerow_six writerow_headers)
next
  show "save_grades_to_csv info (a, b, c, m) (Some t)
     = Some (t @ quote_field (name info) @ '';'' @ quote_field (matriculation info) @ '';''
             @ quote_field a @ '';'' @ quote_field b @ '';'' @ quote_field c @ '';''
             @ quote_field m @ [CR, LF])"
    by (simp add: save_grades_to_csv_def writerow_six)
next
  assume "plain_field f"
  then show "quote_field f = f" by (rule quote_field_plain)
next
  assume "\<not> plain_field g"
  then show "quote_field g
      = DQUOTE # concat (map (\<lambda>c. if c = DQUOTE then [c, c] else [c]) g) @ [DQUOTE]"
    by (rule quote_field_quoted)
next
  assume p: "list_all plain_field
          [name infoa, matriculation infoa, ga, gb, gc, gm,
           name infob, matriculation infob, ha, hb, hc, hm]"
  let ?h = "''Student Name;Matriculation Nr;Task 1;Task 2;Task 3;Comment''"
  let ?ra = "name infoa @ '';'' @ matriculation infoa @ '';'' @ ga @ '';'' @ gb @ '';'' @ gc
                @ '';'' @ gm"
  let ?rb = "name infob @ '';'' @ matriculation infob @ '';'' @ ha @ '';'' @ hb @ '';'' @ hc
                @ '';'' @ hm"
  from p have q: "quote_field (name infoa) = name infoa"
      "quote_field (matriculation infoa) = matriculation infoa"
      "quote_field ga = ga" "quote_field gb = gb" "quote_field gc = gc" "quote_field gm = gm"
      "quote_field (name infob) = name infob"
      "quote_field (matriculation infob) = matriculation infob"
      "quote_field ha = ha" "quote_field hb = hb" "quote_field hc = hc" "quote_field hm = hm"
    by (simp_all add: quote_field_plain)
  have saved: "save_grades_to_csv infob (ha, hb, hc, hm)
             (save_grades_to_csv infoa (ga, gb, gc, gm) None)
      = Some (concat (map (\<lambda>r. r @ [CR, LF]) [?h, ?ra, ?rb]))"
    by (simp add: save_grades_to_csv_def writerow_six writerow_headers q)
  from p have "list_all plain_field [name infoa, matriculation infoa, ga, gb, gc, gm]"
    and "list_all plain_field [name infob, matriculation infob, ha, hb, hc, hm]"
    by simp_all
  from plain_row [OF this(1)] plain_row [OF this(2)]
  have "list_all (\<lambda>r. CR \<notin> set r \<and> LF \<notin> set r) [?h, ?ra, ?rb]"
    by (simp add: CR_def LF_def)
  from readlines_rows [OF this]
  have "readlines (concat (map (\<lambda>r. r @ [CR, LF]) [?h, ?ra, ?rb]))
      = [?h @ [LF], ?ra @ [LF], ?rb @ [LF]]"
    by simp
  with saved show "\<exists>text.
           save_grades_to_csv infob (ha, hb, hc, hm)
             (save_grades_to_csv infoa (ga, gb, gc, gm) None) = Some text
         \<and> readlines text
           = [''Student Name;Matriculation Nr;Task 1;Task 2;Task 3;Comment'' @ [LF],
              name infoa @ '';'' @ matriculation infoa @ '';'' @ ga @ '';'' @ gb @ '';'' @ gc
                @ '';'' @ gm @ [LF],
              name infob @ '';'' @ matriculation infob @ '';'' @ ha @ '';'' @ hb @ '';'' @ hc
                @ '';'' @ hm @ [LF]]"
    by simp
qed


theorem C6_header_written_once_witness:
  "plain_field ''late'' \<and> \<not> plain_field ''late; see mail''
   \<and> list_all plain_field
        [name example_text_info, matriculation example_text_info, ''1'', ''2'', ''0'', ''late'',
         name example_rar_info, matriculation example_rar_info, ''2'', ''2'', ''1'', ''ok'']
   \<and> quote_field ''late'' = ''late''
   \<and> quote_field ''late; see mail''
       = DQUOTE # concat (map (\<lambda>c. if c = DQUOTE then [c, c] else [c]) ''late; see mail'')
         @ [DQUOTE]
   \<and> (\<exists>text.
        save_grades_to_csv example_rar_info (''2'', ''2'', ''1'', ''ok'')
          (save_grades_to_csv example_text_info (''1'', ''2'', ''0'', ''late'') None) = Some text
      \<and> readlines text
        = [''Student Name;Matriculation Nr;Task 1;Task 2;Task 3;Comment'' @ [LF],
           name example_text_info @ '';'' @ matriculation example_text_info @ '';'' @ ''1''
             @ '';'' @ ''2'' @ '';'' @ ''0'' @ '';'' @ ''late'' @ [LF],
           name example_rar_info @ '';'' @ matriculation example_rar_info @ '';'' @ ''2''
             @ '';'' @ ''2'' @ '';'' @ ''1'' @ '';'' @ ''ok'' @ [LF]])"
proof -
  have h1: "plain_field ''late''"
    by code_simp
  have h2: "\<not> plain_field ''late; see mail''"
    by code_simp
  have h3: "list_all plain_field
        [name example_text_info, matriculation example_text_info, ''1'', ''2'', ''0'', ''late'',
         name example_rar_info, matriculation example_rar_info, ''2'', ''2'', ''1'', ''ok'']"
    by code_simp
  from C6_header_written_once [where infoa = example_text_info and ga = "''1''" and gb = "''2''"
      and gc = "''0''" and gm = "''late''" and infob = example_rar_info and ha = "''2''"
      and hb = "''2''" and hc = "''1''" and hm = "''ok''" and f = "''late''"
      and g = "''late; see mail''"]
    h1 h2 h3
  show ?thesis by blast
qed

lemma report_example:
  "save_grades_to_csv example_rar_info (''2'', ''2'', ''1'', ''ok'')
     (save_grades_to_csv example_text_info (''1'', ''2'', ''0'', ''late'') None)
   = Some (''Student Name;Matriculation Nr;Task 1;Task 2;Task 3;Comment'' @ [CR, LF]
           @ ''Jane Doe;Not found;1;2;0;late'' @ [CR, LF]
           @ ''Ravi Rao;Not found;2;2;1;ok'' @ [CR, LF])"
  by code_simp

section \<open>Properties of the scanner and of the pipeline\<close>





lemma copy_submission_csv:
  "copy_submission h cfg info w = Inr (w', x) \<Longrightarrow> grades_csv w' = grades_csv w"
  unfolding copy_submission_def extract_and_copy_java_files_def
  by (auto simp: Let_def split: if_splits sum.splits option.splits node.splits prod.splits)

lemma run_tests_step_csv:
  "run_tests_step h w ins = (w', ins') \<Longrightarrow> grades_csv w' = grades_csv w"
  unfolding run_tests_step_def
  by (auto simp: Let_def split: if_splits prod.splits)

lemma move_to_done_folder_csv:
  "move_to_done_folder cfg path w = Inr w' \<Longrightarrow> grades_csv w' = grades_csv w"
  unfolding move_to_done_folder_def
  by (auto simp: Let_def split: if_splits option.splits node.splits)

lemma cleanup_csv: "grades_csv (cleanup path x w) = grades_csv w"
  unfolding cleanup_def
  by (auto simp: Let_def split: option.splits node.splits)

lemma grade_student_submission_row:
  assumes "grade_student_submission h cfg info w ins = Inr (w', x, rest)"
  shows "\<exists>a b c m ins3. collect_grades ins3 = Inr ((a, b, c, m), rest)
     \<and> grades_csv w' = save_grades_to_csv info (a, b, c, m) (grades_csv w)"
proof -
  from assms obtain w2 x2 where c: "copy_submission h cfg info (setup_directories w) = Inr (w2, x2)"
    unfolding grade_student_submission_def by (auto split: sum.splits)
  obtain w3 ins3 where r: "run_tests_step h w2 ins = (w3, ins3)"
    by (cases "run_tests_step h w2 ins")
  from assms c r obtain g where g: "collect_grades ins3 = Inr (g, rest)"
    and w': "w' = w3\<lparr> grades_csv := save_grades_to_csv info g (grades_csv w3) \<rparr>"
    unfolding grade_student_submission_def by (auto split: sum.splits)
  have "grades_csv w3 = grades_csv w"
    using copy_submission_csv [OF c] run_tests_step_csv [OF r]
    by (simp add: setup_directories_def)
  with w' have "grades_csv w' = save_grades_to_csv info g (grades_csv w)" by simp
  with g show ?thesis by (cases g) blast
qed

lemma example_infos_scanned:
  "scan_submissions default_config example_homeworks
     = [example_text_info, example_rar_info, example_zip_info]"
  by code_simp

lemma scan_submissions_paths:
  "map folder_path (scan_submissions cfg entries) =
     map (\<lambda>(folder_name, n). path_join (HOMEWORKS_DIR cfg) folder_name)
       (filter (\<lambda>(folder_name, n). lower folder_name \<noteq> DONE_DIR cfg \<and> isdir n) entries)"
proof (induction entries)
  case Nil
  then show ?case by simp
next
  case (Cons e entries)
  obtain f n where e: "e = (f, n)" by (cases e)
  with Cons show ?case
    by (cases n) (simp_all add: search_student_directory_def split: prod.splits)
qed

text \<open>
  C7 (code defect). The claim: the subdirectories whose name equals the configured
  archive directory name without regard to case are excluded, so that \<^verbatim>\<open>Done\<close> is
  excluded when the configured name is \<^verbatim>\<open>Done\<close>. The scanner lowers the folder name
  only and compares it with the configured name as it is written: with the configured
  name \<^verbatim>\<open>Done\<close> no folder name can match, and the archive directory itself is scanned
  as a submission.
\<close>

theorem C7_capitalised_archive_name_is_scanned:
  "map name
     (scan_submissions
        \<lparr> HOMEWORKS_DIR = ''Homeworks'', DONE_DIR = ''Done'',
          IGNORE_DIRS = [''_MACOSX'', ''extracted'', ''Done''] \<rparr>
        [(''Done'', Dir [(''Old Student_11112222_assignsubmission_file'', Dir [])]),
         (''Jane Doe_20231234_assignsubmission_file'', Dir [(''Jane.zip'', File Binary)])])
   = [''Done'', ''Jane Doe'']"
  by code_simp

















lemma endswith_last: "endswith s suf \<Longrightarrow> suf \<noteq> [] \<Longrightarrow> last s = last suf"
  by (auto simp: endswith_def suffix_def)

lemma not_zip:
  assumes "endswith item ''.rar'' \<or> endswith item ''.7z''"
  shows "\<not> endswith item ''.zip''"
proof
  assume z: "endswith item ''.zip''"
  from endswith_last [OF z] have "last item = CHR ''p''" by simp
  moreover from assms have "last item = CHR ''r'' \<or> last item = CHR ''z''"
    using endswith_last [of item "''.rar''"] endswith_last [of item "''.7z''"] by auto
  ultimately show False by simp
qed

lemma world_same_homeworks:
  "map_of (homeworks w) k = Some v \<Longrightarrow>
   w\<lparr> homeworks := AList.update k v (homeworks w),
      current_submission_dir := current_submission_dir w \<rparr> = w"
  by (simp add: update_triv)

text \<open>
  C9. For a submission of shape \<^verbatim>\<open>Zipped file\<close> whose first entry with an archive
  extension ends with \<^verbatim>\<open>.rar\<close> or \<^verbatim>\<open>.7z\<close>, and whose folder has no \<^verbatim>\<open>extracted\<close>
  directory, the normalizer extracts and copies nothing: the file system is as before
  and only the extraction path is returned. In the pipeline the current-submission
  directory is then empty after the copy, the test run is skipped (the console and the
  staging directories are untouched, whatever the test runner would do), and grading
  follows at once.
\<close>

theorem C9_unsupported_archive:
  assumes "lookup_folder w (folder_path info) = Some (Dir folder)"
    and "find is_archive folder = Some (item, archive)"
    and "endswith item ''.rar'' \<or> endswith item ''.7z''"
    and "\<forall>sub. map_of folder ''extracted'' \<noteq> Some (Dir sub)"
    and "submission_type info = Zipped_file"
  shows "extract_and_copy_java_files h (folder_path info) w
           = Inr (w, Some (path_join (folder_path info) ''extracted''))
       \<and> copy_submission h cfg info (setup_directories w)
           = Inr (setup_directories w, Some (path_join (folder_path info) ''extracted''))
       \<and> current_submission_dir (setup_directories w) = Some []
       \<and> run_tests_step h (setup_directories w) ins = (setup_directories w, ins)
       \<and> grade_student_submission h cfg info w ins
           = (case collect_grades ins of
                Inl e \<Rightarrow> Inl e
              | Inr (grades, ins4) \<Rightarrow>
                  Inr ((setup_directories w)
                         \<lparr> grades_csv := save_grades_to_csv info grades (grades_csv w) \<rparr>,
                       Some (path_join (folder_path info) ''extracted''), ins4))"
proof -
  have nz: "\<not> endswith item ''.zip''" using assms(3) by (rule not_zip)
  have nowalk: "(case map_of folder ''extracted'' of
                   Some n \<Rightarrow> walk (path_join (folder_path info) ''extracted'') n
                 | None \<Rightarrow> []) = []"
  proof (cases "map_of folder ''extracted''")
    case None
    then show ?thesis by simp
  next
    case (Some n)
    with assms(4) show ?thesis by (cases n) auto
  qed
  have unchanged: "extract_and_copy_java_files h (folder_path info) v
           = Inr (v, Some (path_join (folder_path info) ''extracted''))"
    if "lookup_folder v (folder_path info) = Some (Dir folder)" for v
  proof -
    from that have "map_of (homeworks v) (basename (folder_path info)) = Some (Dir folder)"
      by (simp add: lookup_folder_def)
    from world_same_homeworks [OF this] that show ?thesis
      by (simp add: extract_and_copy_java_files_def assms(2) nz nowalk)
  qed
  have 1: "extract_and_copy_java_files h (folder_path info) w
           = Inr (w, Some (path_join (folder_path info) ''extracted''))"
    using assms(1) by (rule unchanged)
  have "lookup_folder (setup_directories w) (folder_path info) = Some (Dir folder)"
    using assms(1) by (simp add: lookup_folder_def setup_directories_def)
  from unchanged [OF this]
  have 2: "copy_submission h cfg info (setup_directories w)
           = Inr (setup_directories w, Some (path_join (folder_path info) ''extracted''))"
    by (simp add: copy_submission_def assms(5))
  have 3: "current_submission_dir (setup_directories w) = Some []"
    by (simp add: setup_directories_def)
  have 4: "run_tests_step h (setup_directories w) ins = (setup_directories w, ins)"
    by (simp add: run_tests_step_def 3)
  have 5: "grade_student_submission h cfg info w ins
           = (case collect_grades ins of
                Inl e \<Rightarrow> Inl e
              | Inr (grades, ins4) \<Rightarrow>
                  Inr ((setup_directories w)
                         \<lparr> grades_csv := save_grades_to_csv info grades (grades_csv w) \<rparr>,
                       Some (path_join (folder_path info) ''extracted''), ins4))"
  proof -
    have "grades_csv (setup_directories w) = grades_csv w"
      by (simp add: setup_directories_def)
    then show ?thesis
      by (simp add: grade_student_submission_def 2 4 split: sum.splits prod.splits)
  qed
  from 1 2 3 4 5 show ?thesis by blast
qed

theorem C9_unsupported_archive_witness:
  "lookup_folder example_world (folder_path example_rar_info)
     = Some (Dir [(''solution.rar'', File Binary)])
   \<and> find is_archive [(''solution.rar'', File Binary)] = Some (''solution.rar'', File Binary)
   \<and> endswith ''solution.rar'' ''.rar''
   \<and> submission_type example_rar_info = Zipped_file
   \<and> extract_and_copy_java_files example_host (folder_path example_rar_info) example_world
       = Inr (example_world, Some (path_join (folder_path example_rar_info) ''extracted''))
   \<and> copy_submission example_host default_config example_rar_info
         (setup_directories example_world)
       = Inr (setup_directories example_world,
              Some (path_join (folder_path example_rar_info) ''extracted''))
   \<and> current_submission_dir (setup_directories example_world) = Some []
   \<and> run_tests_step example_host (setup_directories example_world) [''2'', ''2'', ''1'', ''ok'']
       = (setup_directories example_world, [''2'', ''2'', ''1'', ''ok''])
   \<and> grade_student_submission example_host default_config example_rar_info example_world
         [''2'', ''2'', ''1'', ''ok'']
       = (case collect_grades [''2'', ''2'', ''1'', ''ok''] of
            Inl e \<Rightarrow> Inl e
          | Inr (grades, ins4) \<Rightarrow>
              Inr ((setup_directories example_world)
                     \<lparr> grades_csv :=
                         save_grades_to_csv example_rar_info grades (grades_csv example_world) \<rparr>,
                   Some (path_join (folder_path example_rar_info) ''extracted''), ins4))"
proof -
  have h1: "lookup_folder example_world (folder_path example_rar_info)
     = Some (Dir [(''solution.rar'', File Binary)])"
    by code_simp
  have h2: "find is_archive [(''solution.rar'', File Binary)] = Some (''solution.rar'', File Binary)"
    by code_simp
  have h3: "endswith ''solution.rar'' ''.rar''"
    by code_simp
  have h4: "\<forall>sub. map_of [(''solution.rar'', File Binary)] ''extracted'' \<noteq> Some (Dir sub)"
    by simp
  have h5: "submission_type example_rar_info = Zipped_file"
    by code_simp
  from C9_unsupported_archive [OF h1 h2 disjI1 [OF h3] h4 h5,
      of example_host default_config "[''2'', ''2'', ''1'', ''ok'']"]
    h1 h2 h3 h5
  show ?thesis by blast
qed

text \<open>
  C10. Whenever grade capture returns, the comment it returns is neither \<^verbatim>\<open>b\<close> nor
  \<^verbatim>\<open>0\<close>; so whenever the grading stage of the pipeline appends a row to the report,
  the comment of that row is neither of the two.
\<close>

theorem C10_comment_never_sentinel:
  "(collect_grades ins = Inr ((a, b, c, m), rest) \<longrightarrow> m \<noteq> ''b'' \<and> m \<noteq> ''0'')
   \<and> (grade_student_submission h cfg info w ins' = Inr (w', x, rest') \<longrightarrow>
        (\<exists>a b c m. grades_csv w' =
             Some ((case grades_csv w of None \<Rightarrow> writerow CSV_HEADERS | Some t \<Rightarrow> t)
                   @ writerow [name info, matriculation info, a, b, c, m])
           \<and> m \<noteq> ''b'' \<and> m \<noteq> ''0''))"
proof -
  have ns: "m \<noteq> ''b'' \<and> m \<noteq> ''0''"
    if "collect_grades ins = Inr ((a, b, c, m), rest)" for ins a b c m rest
  proof -
    from that have "collect_loop [] [] [] ''0'' ins = Inr ((a, b, c, m), rest)"
      by (simp add: collect_grades_def)
    from collect_loop_result [OF this] have "\<not> is_sentinel m"
      by (simp add: is_sentinel_def)
    then show ?thesis by (simp add: is_sentinel_def)
  qed
  have "\<exists>a b c m. grades_csv w' =
             Some ((case grades_csv w of None \<Rightarrow> writerow CSV_HEADERS | Some t \<Rightarrow> t)
                   @ writerow [name info, matriculation info, a, b, c, m])
           \<and> m \<noteq> ''b'' \<and> m \<noteq> ''0''"
    if "grade_student_submission h cfg info w ins' = Inr (w', x, rest')"
  proof -
    from grade_student_submission_row [OF that] obtain a b c m ins3
      where g: "collect_grades ins3 = Inr ((a, b, c, m), rest')"
        and csv: "grades_csv w' = save_grades_to_csv info (a, b, c, m) (grades_csv w)"
      by blast
    from csv have "grades_csv w' =
             Some ((case grades_csv w of None \<Rightarrow> writerow CSV_HEADERS | Some t \<Rightarrow> t)
                   @ writerow [name info, matriculation info, a, b, c, m])"
      by (simp add: save_grades_to_csv_def split: option.splits)
    with ns [OF g] show ?thesis by blast
  qed
  with ns show ?thesis by blast
qed

theorem C10_comment_never_sentinel_witness:
  "collect_grades [''1'', ''1'', ''1'', ''b'', ''2'', ''2'', ''2'', ''0'', ''0'', ''1'', ''2'', ''fine'']
     = Inr ((''0'', ''1'', ''2'', ''fine''), [])
   \<and> ''fine'' \<noteq> ''b'' \<and> ''fine'' \<noteq> ''0''
   \<and> grade_student_submission example_host default_config example_text_info example_world
        [''1'', ''1'', ''1'', ''b'', ''2'', ''2'', ''2'', ''0'', ''0'', ''1'', ''2'', ''fine'']
     = Inr ((setup_directories example_world)
              \<lparr> grades_csv :=
                  save_grades_to_csv example_text_info (''0'', ''1'', ''2'', ''fine'') None \<rparr>,
            None, [])
   \<and> (\<exists>a b c m.
        grades_csv ((setup_directories example_world)
              \<lparr> grades_csv :=
                  save_grades_to_csv example_text_info (''0'', ''1'', ''2'', ''fine'') None \<rparr>)
          = Some ((case grades_csv example_world of
                     None \<Rightarrow> writerow CSV_HEADERS | Some t \<Rightarrow> t)
                  @ writerow [name example_text_info, matriculation example_text_info, a, b, c, m])
      \<and> m \<noteq> ''b'' \<and> m \<noteq> ''0'')"
proof -
  have h1: "collect_grades
       [''1'', ''1'', ''1'', ''b'', ''2'', ''2'', ''2'', ''0'', ''0'', ''1'', ''2'', ''fine'']
     = Inr ((''0'', ''1'', ''2'', ''fine''), [])"
    by code_simp
  have h2: "grade_student_submission example_host default_config example_text_info example_world
        [''1'', ''1'', ''1'', ''b'', ''2'', ''2'', ''2'', ''0'', ''0'', ''1'', ''2'', ''fine'']
     = Inr ((setup_directories example_world)
              \<lparr> grades_csv :=
                  save_grades_to_csv example_text_info (''0'', ''1'', ''2'', ''fine'') None \<rparr>,
            None, [])"
    by code_simp
  from C10_comment_never_sentinel [of
      "[''1'', ''1'', ''1'', ''b'', ''2'', ''2'', ''2'', ''0'', ''0'', ''1'', ''2'', ''fine'']"
      "''0''" "''1''" "''2''" "''fine''" "[]" example_host default_config example_text_info
      example_world
      "[''1'', ''1'', ''1'', ''b'', ''2'', ''2'', ''2'', ''0'', ''0'', ''1'', ''2'', ''fine'']"
      "(setup_directories example_world)
              \<lparr> grades_csv :=
                  save_grades_to_csv example_text_info (''0'', ''1'', ''2'', ''fine'') None \<rparr>"
      None "[]"]
    h1 h2
  show ?thesis by blast
qed

end
